theory Spec2Isabelle
  imports Complex_Main "HOL-Library.Word"
begin

unbundle bit_operations_syntax

section \<open>The document processing viewer (app.py)\<close>

text \<open>
  The program is one Python file. It draws the layout blocks of a document as tinted
  rectangles over the rasterised pages. This theory embeds the part of \<open>main\<close> that groups
  the blocks, computes the statistics, draws the overlays and handles the errors of one
  selected file.

  Conventions of the embedding:
  \<^item> Python exceptions are values of the type \<open>exn\<close>; a computation that may raise
    returns a sum, with \<open>Inl\<close> for the raised exception. Where the page shown so far
    matters, the exception comes with it (\<open>exn \<times> ui list\<close>).
  \<^item> JSON numbers are rationals and Python's arithmetic on them is exact: the rounding of
    binary floating point is not part of the model.
  \<^item> Pillow images are objects in a store (a list of images addressed by position), since
    \<open>ImageDraw\<close> mutates the image it draws on and the name \<open>img\<close> is re-bound to new
    objects. Pillow itself is a library; its four operations used by the program are
    modelled after its documentation and its C sources (\<open>Draw.c\<close>, \<open>AlphaComposite.c\<close>,
    \<open>Convert.c\<close>).
\<close>

subsection \<open>Python values\<close>

datatype exn =
  RequestException string
| JSONDecodeError string
| KeyError string
| ValueError string
| OtherException string

text \<open>Sequencing of two computations, the second skipped when the first raises.\<close>

definition and_then :: "'e + 'a \<Rightarrow> ('a \<Rightarrow> 'e + 'b) \<Rightarrow> 'e + 'b" where
  "and_then r f = (case r of Inl e \<Rightarrow> Inl e | Inr v \<Rightarrow> f v)"

text \<open>\<open>int(x)\<close> on a number truncates towards zero.\<close>

definition py_int :: "rat \<Rightarrow> int" where
  "py_int q = (if q < 0 then \<lceil>q\<rceil> else \<lfloor>q\<rfloor>)"

subsection \<open>Pillow: images, drawing and compositing\<close>

type_synonym UINT8 = "8 word"
type_synonym UINT32 = "32 word"
type_synonym rgba = "UINT8 \<times> UINT8 \<times> UINT8 \<times> UINT8"
type_synonym rgb = "UINT8 \<times> UINT8 \<times> UINT8"
type_synonym xy = "(int \<times> int) \<times> (int \<times> int)"

datatype mode = RGB | RGBA

text \<open>
  An image has a size (width, height) and one pixel value for each position; the
  constructor is its mode. Only positions \<open>x < width\<close>, \<open>y < height\<close> are pixels of the
  image.
\<close>

datatype image =
  RGB_image "nat \<times> nat" "nat \<Rightarrow> nat \<Rightarrow> rgb"
| RGBA_image "nat \<times> nat" "nat \<Rightarrow> nat \<Rightarrow> rgba"

fun image_mode :: "image \<Rightarrow> mode" where
  "image_mode (RGB_image sz px) = RGB"
| "image_mode (RGBA_image sz px) = RGBA"

fun image_size :: "image \<Rightarrow> nat \<times> nat" where
  "image_size (RGB_image sz px) = sz"
| "image_size (RGBA_image sz px) = sz"

text \<open>\<open>im.convert('RGBA')\<close>: an RGB pixel gets the alpha value 255.\<close>

fun convert_RGBA :: "image \<Rightarrow> image" where
  "convert_RGBA (RGB_image sz px) =
     RGBA_image sz (\<lambda>x y. case px x y of (r, g, b) \<Rightarrow> (r, g, b, 255))"
| "convert_RGBA (RGBA_image sz px) = RGBA_image sz px"

text \<open>The pixel at a position, read as RGBA.\<close>

fun getpixel :: "image \<Rightarrow> nat \<Rightarrow> nat \<Rightarrow> rgba" where
  "getpixel (RGB_image sz px) x y = (case px x y of (r, g, b) \<Rightarrow> (r, g, b, 255))"
| "getpixel (RGBA_image sz px) x y = px x y"

text \<open>
  A filled rectangle covers the pixels of the image between its two corners, both
  corners included; what lies outside the image is clipped (\<open>ImagingDrawRectangle\<close> and
  \<open>hline32\<close>).
\<close>

definition in_rectangle :: "nat \<times> nat \<Rightarrow> xy \<Rightarrow> nat \<Rightarrow> nat \<Rightarrow> bool" where
  "in_rectangle sz box x y =
     (case sz of (w, h) \<Rightarrow> case box of ((x0, y0), (x1, y1)) \<Rightarrow>
        x < w \<and> y < h \<and> x0 \<le> int x \<and> int x \<le> x1 \<and> y0 \<le> int y \<and> int y \<le> y1)"

fun fill_rectangle :: "image \<Rightarrow> xy \<Rightarrow> rgba \<Rightarrow> image" where
  "fill_rectangle (RGBA_image sz px) box ink =
     RGBA_image sz (\<lambda>x y. if in_rectangle sz box x y then ink else px x y)"
| "fill_rectangle (RGB_image sz px) box ink =
     RGB_image sz (\<lambda>x y. if in_rectangle sz box x y
                          then (case ink of (r, g, b, a) \<Rightarrow> (r, g, b)) else px x y)"

text \<open>
  One pixel of \<open>ImagingAlphaComposite\<close>: the source pixel over the destination pixel, in
  the integer arithmetic of the C code.
\<close>

definition PRECISION_BITS :: nat where
  "PRECISION_BITS = 7"

definition SHIFTFORDIV255 :: "UINT32 \<Rightarrow> UINT32" where
  "SHIFTFORDIV255 a = drop_bit 8 (drop_bit 8 a + a)"

definition blend_channel :: "UINT32 \<Rightarrow> UINT32 \<Rightarrow> UINT8 \<Rightarrow> UINT8 \<Rightarrow> UINT8" where
  "blend_channel coef1 coef2 s d =
     (let tmp = ucast s * coef1 + ucast d * coef2
      in ucast (drop_bit PRECISION_BITS (SHIFTFORDIV255 (tmp + push_bit PRECISION_BITS 0x80))))"

definition alpha_composite_pixel :: "rgba \<Rightarrow> rgba \<Rightarrow> rgba" where
  "alpha_composite_pixel dst src =
     (case dst of (dr, dg, db, da) \<Rightarrow> case src of (sr, sg, sb, sa) \<Rightarrow>
        if sa = 0 then dst
        else
          let blend = ucast da * (255 - ucast sa) :: UINT32;
              outa255 = ucast sa * 255 + blend;
              coef1 = ucast sa * 255 * 255 * push_bit PRECISION_BITS 1 div outa255;
              coef2 = 255 * push_bit PRECISION_BITS 1 - coef1
          in (blend_channel coef1 coef2 sr dr,
              blend_channel coef1 coef2 sg dg,
              blend_channel coef1 coef2 sb db,
              ucast (SHIFTFORDIV255 (outa255 + 0x80))))"

text \<open>\<open>Image.alpha_composite(im1, im2)\<close> on two images: both RGBA, of one size.\<close>

fun alpha_composite :: "image \<Rightarrow> image \<Rightarrow> exn + image" where
  "alpha_composite (RGBA_image sz1 dst) (RGBA_image sz2 src) =
     (if sz1 \<noteq> sz2 then Inl (ValueError ''images do not match'')
      else Inr (RGBA_image sz1 (\<lambda>x y. alpha_composite_pixel (dst x y) (src x y))))"
| "alpha_composite (RGBA_image sz1 dst) (RGB_image sz2 src) =
     Inl (ValueError ''images do not match'')"
| "alpha_composite (RGB_image sz1 dst) im2 = Inl (ValueError ''image has wrong mode'')"

subsection \<open>The store of image objects\<close>

type_synonym ref = nat
type_synonym heap = "image list"

text \<open>\<open>Image.new('RGBA', size, color)\<close> allocates a new image of one colour.\<close>

definition Image_new_RGBA :: "nat \<times> nat \<Rightarrow> rgba \<Rightarrow> heap \<Rightarrow> ref \<times> heap" where
  "Image_new_RGBA sz color h = (length h, h @ [RGBA_image sz (\<lambda>x y. color)])"

text \<open>\<open>im.convert('RGBA')\<close> allocates the converted copy and leaves \<open>im\<close> as it is.\<close>

definition Image_convert_RGBA :: "ref \<Rightarrow> heap \<Rightarrow> ref \<times> heap" where
  "Image_convert_RGBA im h = (length h, h @ [convert_RGBA (h ! im)])"

text \<open>
  \<open>ImageDraw.Draw(im).rectangle([(x0, y0), (x1, y1)], fill=ink)\<close> writes into \<open>im\<close>
  itself. Pillow raises \<open>ValueError\<close> when the second corner is left of or above the
  first.
\<close>

definition ImageDraw_rectangle :: "ref \<Rightarrow> xy \<Rightarrow> rgba \<Rightarrow> heap \<Rightarrow> exn + heap" where
  "ImageDraw_rectangle im box ink h =
     (case box of ((x0, y0), (x1, y1)) \<Rightarrow>
        if x1 < x0 then Inl (ValueError ''x1 must be greater than or equal to x0'')
        else if y1 < y0 then Inl (ValueError ''y1 must be greater than or equal to y0'')
        else Inr (h[im := fill_rectangle (h ! im) box ink]))"

text \<open>\<open>Image.alpha_composite(im1, im2)\<close> allocates the composite of \<open>im2\<close> over \<open>im1\<close>.\<close>

definition Image_alpha_composite :: "ref \<Rightarrow> ref \<Rightarrow> heap \<Rightarrow> exn + ref \<times> heap" where
  "Image_alpha_composite im1 im2 h =
     and_then (alpha_composite (h ! im1) (h ! im2)) (\<lambda>out. Inr (length h, h @ [out]))"

subsection \<open>Blocks of the layout analysis\<close>

record bounding_box =
  Left :: rat
  Top :: rat
  Width :: rat
  Height :: rat

record geometry =
  BoundingBox :: bounding_box

record block =
  BlockType :: string
  Page :: int
  Geometry :: geometry
  Text :: "string option"

definition BLOCK_COLORS :: "(string \<times> rgba) list" where
  "BLOCK_COLORS =
     [(''LAYOUT_FIGURE'', (255, 0, 0, 64)),
      (''LAYOUT_TABLE'', (0, 0, 255, 64)),
      (''LAYOUT_TEXT'', (0, 255, 0, 64)),
      (''LAYOUT_HEADER/TITLE'', (128, 0, 128, 64)),
      (''LAYOUT_FOOTER'', (255, 255, 0, 64))]"

subsection \<open>Drawing the overlays of one page (lines 188 to 293)\<close>

text \<open>
  The two corners handed to \<open>draw.rectangle\<close> for a block (lines 191 to 195 and 204), on
  a page image of the given width and height.
\<close>

definition block_rectangle :: "nat \<Rightarrow> nat \<Rightarrow> block \<Rightarrow> xy" where
  "block_rectangle img_width img_height blk =
     (let bounding_box = BoundingBox (Geometry blk);
          left = py_int (of_nat img_width * Left bounding_box);
          top = py_int (of_nat img_height * Top bounding_box);
          width = py_int (of_nat img_width * Width bounding_box);
          height = py_int (of_nat img_height * Height bounding_box)
      in ((left, top), (left + width, top + height)))"

text \<open>
  The body shared by the five drawing loops, which differ in the fill colour only. The
  state is the object that \<open>img\<close> names, and the store.
\<close>

definition draw_block :: "rgba \<Rightarrow> nat \<Rightarrow> nat \<Rightarrow> block \<Rightarrow> ref \<times> heap \<Rightarrow> exn + ref \<times> heap" where
  "draw_block fill img_width img_height blk s =
     (case s of (img, h) \<Rightarrow>
        case Image_new_RGBA (image_size (h ! img)) (0, 0, 0, 0) h of (overlay, h1) \<Rightarrow>
          and_then (ImageDraw_rectangle overlay (block_rectangle img_width img_height blk) fill h1)
            (\<lambda>h2. case Image_convert_RGBA img h2 of (converted, h3) \<Rightarrow>
                     Image_alpha_composite converted overlay h3))"

text \<open>A \<open>for\<close> loop over a list, left as soon as its body raises.\<close>

fun for_each :: "('a \<Rightarrow> 's \<Rightarrow> 'e + 's) \<Rightarrow> 'a list \<Rightarrow> 's \<Rightarrow> 'e + 's" where
  "for_each body [] s = Inr s"
| "for_each body (x # xs) s = and_then (body x s) (for_each body xs)"

text \<open>The five loops, in the order of the source, each with its literal fill colour.\<close>

definition draw_overlays :: "block list \<Rightarrow> block list \<Rightarrow> block list \<Rightarrow> block list \<Rightarrow> block list
    \<Rightarrow> ref \<Rightarrow> heap \<Rightarrow> exn + ref \<times> heap" where
  "draw_overlays page_figure_blocks page_table_blocks page_text_blocks page_header_blocks
       page_footer_blocks img h =
     (case image_size (h ! img) of (img_width, img_height) \<Rightarrow>
        and_then (for_each (draw_block (255, 0, 0, 64) img_width img_height)
                    page_figure_blocks (img, h))
       (\<lambda>s. and_then (for_each (draw_block (0, 0, 255, 64) img_width img_height)
                    page_table_blocks s)
       (\<lambda>s. and_then (for_each (draw_block (0, 255, 0, 64) img_width img_height)
                    page_text_blocks s)
       (\<lambda>s. and_then (for_each (draw_block (128, 0, 128, 64) img_width img_height)
                    page_header_blocks s)
       (\<lambda>s. for_each (draw_block (255, 255, 0, 64) img_width img_height)
                    page_footer_blocks s)))))"

subsection \<open>Grouping the blocks of a page (lines 154 to 179)\<close>

record page_groups =
  page_line_blocks :: "block list"
  page_word_blocks :: "block list"
  page_figure_blocks :: "block list"
  page_table_blocks :: "block list"
  page_text_blocks :: "block list"
  page_header_blocks :: "block list"
  page_footer_blocks :: "block list"

definition empty_groups :: page_groups where
  "empty_groups =
     \<lparr>page_line_blocks = [], page_word_blocks = [], page_figure_blocks = [],
      page_table_blocks = [], page_text_blocks = [], page_header_blocks = [],
      page_footer_blocks = []\<rparr>"

text \<open>The body of the loop over \<open>all_blocks\<close>: a chain of independent \<open>if\<close> statements.\<close>

definition group_block :: "int \<Rightarrow> page_groups \<Rightarrow> block \<Rightarrow> page_groups" where
  "group_block page_num g blk =
     (if Page blk \<noteq> page_num then g
      else
        let g1 = (if BlockType blk = ''LINE''
                  then g\<lparr>page_line_blocks := page_line_blocks g @ [blk]\<rparr> else g);
            g2 = (if BlockType blk = ''WORD''
                  then g1\<lparr>page_word_blocks := page_word_blocks g1 @ [blk]\<rparr> else g1);
            g3 = (if BlockType blk = ''LAYOUT_FIGURE''
                  then g2\<lparr>page_figure_blocks := page_figure_blocks g2 @ [blk]\<rparr> else g2);
            g4 = (if BlockType blk = ''LAYOUT_TABLE''
                  then g3\<lparr>page_table_blocks := page_table_blocks g3 @ [blk]\<rparr> else g3);
            g5 = (if BlockType blk = ''LAYOUT_TEXT''
                  then g4\<lparr>page_text_blocks := page_text_blocks g4 @ [blk]\<rparr> else g4);
            g6 = (if BlockType blk \<in> set [''LAYOUT_SECTION_HEADER'', ''LAYOUT_HEADER'', ''LAYOUT_TITLE'']
                  then g5\<lparr>page_header_blocks := page_header_blocks g5 @ [blk]\<rparr> else g5)
        in (if BlockType blk = ''LAYOUT_FOOTER''
            then g6\<lparr>page_footer_blocks := page_footer_blocks g6 @ [blk]\<rparr> else g6))"

definition group_page_blocks :: "block list \<Rightarrow> int \<Rightarrow> page_groups" where
  "group_page_blocks all_blocks page_num = foldl (group_block page_num) empty_groups all_blocks"

text \<open>Grouping the blocks of a page and drawing its five overlay groups on the page image.\<close>

definition render_page :: "block list \<Rightarrow> int \<Rightarrow> ref \<Rightarrow> heap \<Rightarrow> exn + ref \<times> heap" where
  "render_page all_blocks page_num img h =
     (let g = group_page_blocks all_blocks page_num
      in draw_overlays (page_figure_blocks g) (page_table_blocks g) (page_text_blocks g)
           (page_header_blocks g) (page_footer_blocks g) img h)"

subsection \<open>The statistics (lines 128 to 147)\<close>

record typed_blocks =
  line_blocks :: "block list"
  word_blocks :: "block list"
  figure_blocks :: "block list"
  table_blocks :: "block list"

text \<open>The body of the loop: an \<open>if\<close>/\<open>elif\<close> chain on the block type.\<close>

definition classify_block :: "typed_blocks \<Rightarrow> block \<Rightarrow> typed_blocks" where
  "classify_block t blk =
     (if BlockType blk = ''LINE'' then t\<lparr>line_blocks := line_blocks t @ [blk]\<rparr>
      else if BlockType blk = ''WORD'' then t\<lparr>word_blocks := word_blocks t @ [blk]\<rparr>
      else if BlockType blk = ''LAYOUT_FIGURE'' then t\<lparr>figure_blocks := figure_blocks t @ [blk]\<rparr>
      else if BlockType blk = ''LAYOUT_TABLE'' then t\<lparr>table_blocks := table_blocks t @ [blk]\<rparr>
      else t)"

definition classify_blocks :: "block list \<Rightarrow> typed_blocks" where
  "classify_blocks all_blocks =
     foldl classify_block
       \<lparr>line_blocks = [], word_blocks = [], figure_blocks = [], table_blocks = []\<rparr> all_blocks"

record stats =
  Page_Count :: nat
  Line_Count :: nat
  Word_Count :: nat
  Figure_Count :: nat
  Table_Count :: nat

definition statistics :: "nat \<Rightarrow> block list \<Rightarrow> stats" where
  "statistics len_pdf_document all_blocks =
     (let t = classify_blocks all_blocks
      in \<lparr>Page_Count = len_pdf_document,
          Line_Count = length (line_blocks t),
          Word_Count = length (word_blocks t),
          Figure_Count = length (figure_blocks t),
          Table_Count = length (table_blocks t)\<rparr>)"


subsection \<open>What the page shows\<close>

text \<open>
  The Streamlit calls of the program, in the order they are made. \<open>St_traceback\<close> is
  the expander "Show Error Traceback" with the formatted traceback inside,
  \<open>St_legend_box\<close> one box of the legend (its background colour and its label),
  \<open>St_text_line\<close> one extracted line in the right column.
\<close>

datatype ui =
  St_write string
| St_error string
| St_traceback
| St_statistics stats
| St_markdown string
| St_legend_box string string
| St_header string
| St_subheader string
| St_image image
| St_text_line string

text \<open>\<open>str(e)\<close>: an exception carries its message. \<open>str_nat\<close> is \<open>str\<close> on a page number.\<close>

fun str_exn :: "exn \<Rightarrow> string" where
  "str_exn (RequestException m) = m"
| "str_exn (JSONDecodeError m) = m"
| "str_exn (KeyError m) = m"
| "str_exn (ValueError m) = m"
| "str_exn (OtherException m) = m"

fun str_nat :: "nat \<Rightarrow> string" where
  "str_nat n =
     (if n < 10 then [''0123456789'' ! n]
      else str_nat (n div 10) @ [''0123456789'' ! (n mod 10)])"

declare str_nat.simps [simp del]

definition prefix :: string where
  "prefix = ''pdpvp_textract_test_cases/''"

definition repo :: string where
  "repo = ''ipos-fst/public_artefacts''"

text \<open>\<open>str.replace\<close> as the program calls it: every backslash becomes a slash.\<close>

definition replace_backslash :: "string \<Rightarrow> string" where
  "replace_backslash s = map (\<lambda>c. if c = CHR 0x5C then CHR ''/'' else c) s"

subsection \<open>The legend (lines 34 to 65)\<close>

text \<open>
  The legend is a title, a style sheet and one box for each entry of \<open>BLOCK_COLORS\<close>, in
  the order of the table. The text of the style sheet is abbreviated, and the HTML of a
  box is kept as its two parameters: the background colour from \<open>rgba_to_hex\<close> and the label.
\<close>

definition hex02 :: "UINT8 \<Rightarrow> string" where
  "hex02 v = [''0123456789abcdef'' ! (unat v div 16), ''0123456789abcdef'' ! (unat v mod 16)]"

definition rgba_to_hex :: "rgba \<Rightarrow> string" where
  "rgba_to_hex rgba = (case rgba of (r, g, b, a) \<Rightarrow> ''#'' @ hex02 r @ hex02 g @ hex02 b)"

definition display_legends_with_columns :: "ui list \<Rightarrow> ui list" where
  "display_legends_with_columns shown =
     shown @ [St_markdown ''### Block Type Legend'', St_markdown ''<style>.legend-box</style>'']
         @ map (\<lambda>(block_type, color). St_legend_box (rgba_to_hex color) block_type) BLOCK_COLORS"

subsection \<open>The collaborators of the program\<close>

text \<open>
  The network, the JSON parser, PyMuPDF and the file system are outside the program. Each
  is a function that returns its result or the exception it raises:
  \<^item> \<open>requests_get\<close>: \<open>requests.get(url)\<close>, \<open>raise_for_status()\<close> and the content of
    the response;
  \<^item> \<open>json_loads\<close>: the parsed document, a dictionary from document keys to the list of
    Textract responses, each with its \<open>Blocks\<close>;
  \<^item> \<open>fitz_open\<close>: the opened PDF as the list of its pages, each page the image that
    \<open>load_page\<close>, \<open>get_pixmap\<close>, \<open>tobytes\<close> and \<open>Image.open\<close> give, or the exception one of
    them raises;
  \<^item> \<open>normpath\<close>: \<open>os.path.normpath\<close>.
\<close>

record part =
  Blocks :: "block list"

record env =
  requests_get :: "string \<Rightarrow> exn + string"
  json_loads :: "string \<Rightarrow> exn + (string \<Rightarrow> part list option)"
  fitz_open :: "string \<Rightarrow> exn + (exn + image) list"
  normpath :: "string \<Rightarrow> string"

subsection \<open>Fetching the result file (lines 24 to 32)\<close>

definition get_github_file_content ::
    "env \<Rightarrow> string \<Rightarrow> ui list \<Rightarrow> (exn \<times> ui list) + (string option \<times> ui list)" where
  "get_github_file_content env path shown =
     (let url = ''https://raw.githubusercontent.com/'' @ repo @ ''/outputs/'' @ path
      in case requests_get env url of
           Inr content \<Rightarrow> Inr (Some content, shown)
         | Inl e \<Rightarrow>
             (case e of
                RequestException m \<Rightarrow>
                  Inr (None, shown @ [St_error (''Error fetching file from GitHub: '' @ m)])
              | _ \<Rightarrow> Inl (e, shown)))"

subsection \<open>Showing the selected file (lines 89 to 306)\<close>

text \<open>One line of the right column (lines 298 to 301); a block without \<open>Text\<close> raises.\<close>

definition show_line :: "block \<Rightarrow> ui list \<Rightarrow> (exn \<times> ui list) + ui list" where
  "show_line blk shown =
     (case Text blk of
        None \<Rightarrow> Inl (KeyError ''Text'', shown)
      | Some t \<Rightarrow> Inr (shown @ [St_text_line t]))"

text \<open>
  The body of the loop over the pages (lines 153 to 301). The page image is a new object
  in a store of its own; the overlays are drawn on it and the result is shown.
\<close>

definition show_page ::
    "(exn + image) list \<Rightarrow> block list \<Rightarrow> nat \<Rightarrow> ui list \<Rightarrow> (exn \<times> ui list) + ui list" where
  "show_page pdf_document all_blocks page_num shown =
     (let g = group_page_blocks all_blocks (int page_num);
          shown1 = shown @ [St_subheader (''Original PDF Page '' @ str_nat page_num)]
      in case pdf_document ! (page_num - 1) of
           Inl e \<Rightarrow> Inl (e, shown1)
         | Inr img \<Rightarrow>
             (case draw_overlays (page_figure_blocks g) (page_table_blocks g)
                     (page_text_blocks g) (page_header_blocks g) (page_footer_blocks g)
                     0 [img] of
                Inl e \<Rightarrow> Inl (e, shown1)
              | Inr (img', h) \<Rightarrow>
                  for_each show_line (page_line_blocks g)
                    (shown1 @ [St_image (h ! img'), St_subheader ''Extracted Text''])))"

text \<open>Lines 117 to 301: the document is parsed; open the PDF and show its pages.\<close>

definition show_document ::
    "env \<Rightarrow> string \<Rightarrow> string \<Rightarrow> (string \<Rightarrow> part list option) \<Rightarrow> ui list
      \<Rightarrow> (exn \<times> ui list) + ui list" where
  "show_document env selected_file pdf_path content shown =
     (case fitz_open env pdf_path of
        Inl e \<Rightarrow> Inl (e, shown)
      | Inr pdf_document \<Rightarrow>
          let document_key = replace_backslash (normpath env (prefix @ ''/'' @ pdf_path))
          in (case content document_key of
                None \<Rightarrow> Inl (KeyError document_key, shown)
              | Some textract_parts \<Rightarrow>
                  (let all_blocks = concat (map Blocks textract_parts);
                       shown1 = shown @ [St_statistics (statistics (length pdf_document) all_blocks)];
                       shown2 = display_legends_with_columns shown1
                              @ [St_header (''Processed File: '' @ selected_file)]
                   in for_each (show_page pdf_document all_blocks)
                        [1..<Suc (length pdf_document)] shown2)))"

text \<open>The body of the \<open>try\<close> statement (lines 95 to 301), with its two early returns.\<close>

definition process_file ::
    "env \<Rightarrow> string \<Rightarrow> string \<Rightarrow> string \<Rightarrow> ui list \<Rightarrow> (exn \<times> ui list) + ui list" where
  "process_file env selected_file pdf_path output_path shown =
     (let output_path = replace_backslash output_path;
          shown1 = shown @ [St_write (''Processing file: '' @ output_path)]
      in and_then (get_github_file_content env output_path shown1)
           (\<lambda>(raw_content, shown2).
              case raw_content of
                None \<Rightarrow> Inr (shown2 @ [St_error ''File is empty''])
              | Some raw \<Rightarrow>
                  if raw = [] then Inr (shown2 @ [St_error ''File is empty''])
                  else
                    (case json_loads env raw of
                       Inl e \<Rightarrow>
                         (case e of
                            JSONDecodeError m \<Rightarrow>
                              Inr (shown2 @ [St_error (''Invalid JSON format: '' @ m),
                                           St_write (''Content that failed to parse: '' @ raw),
                                           St_traceback])
                          | _ \<Rightarrow> Inl (e, shown2))
                     | Inr content \<Rightarrow>
                         show_document env selected_file pdf_path content shown2)))"

text \<open>
  The \<open>try\<close> statement with its handler \<open>except Exception\<close> (lines 91 to 306), entered
  once a folder and a file are selected; \<open>output_path\<close> is the entry of the processing
  map for them.
\<close>

definition view_selected_file ::
    "env \<Rightarrow> string \<Rightarrow> string \<Rightarrow> string \<Rightarrow> ui list \<Rightarrow> (exn \<times> ui list) + ui list" where
  "view_selected_file env selected_folder selected_file output_path shown =
     (let pdf_file = selected_file @ ''.pdf'';
          pdf_path = selected_folder @ ''/'' @ pdf_file
      in case process_file env selected_file pdf_path output_path shown of
           Inl (e, shown') \<Rightarrow>
             Inr (shown' @ [St_error (''Error loading processed file: '' @ str_exn e),
                          St_traceback])
         | Inr shown' \<Rightarrow> Inr shown')"


section \<open>Notions used to state the properties\<close>

subsection \<open>Rectangles and tinted images\<close>

text \<open>A rectangle that \<open>draw.rectangle\<close> accepts: the second corner not before the first.\<close>

definition valid_box :: "xy \<Rightarrow> bool" where
  "valid_box box = (case box of ((x0, y0), (x1, y1)) \<Rightarrow> x0 \<le> x1 \<and> y0 \<le> y1)"

text \<open>The scratch layer: transparent, with the rectangle in the fill colour.\<close>

definition overlay_layer :: "nat \<times> nat \<Rightarrow> xy \<Rightarrow> rgba \<Rightarrow> image" where
  "overlay_layer sz box fill =
     RGBA_image sz (\<lambda>x y. if in_rectangle sz box x y then fill else (0, 0, 0, 0))"

text \<open>An image with one rectangle tinted: the fill colour over the pixels of the rectangle.\<close>

definition tint_rectangle :: "rgba \<Rightarrow> xy \<Rightarrow> image \<Rightarrow> image" where
  "tint_rectangle fill box im =
     RGBA_image (image_size im)
       (\<lambda>x y. if in_rectangle (image_size im) box x y
              then alpha_composite_pixel (getpixel im x y) fill else getpixel im x y)"

text \<open>
  The rectangles of a page with their tints, in the order in which the five loops draw
  them, and the image that tinting them one after the other gives.
\<close>

definition painting_order ::
    "block list \<Rightarrow> block list \<Rightarrow> block list \<Rightarrow> block list \<Rightarrow> block list \<Rightarrow> (rgba \<times> block) list" where
  "painting_order figures tables texts headers footers =
     map (Pair (255, 0, 0, 64)) figures @ map (Pair (0, 0, 255, 64)) tables @
     map (Pair (0, 255, 0, 64)) texts @ map (Pair (128, 0, 128, 64)) headers @
     map (Pair (255, 255, 0, 64)) footers"

definition draw_tinted :: "nat \<Rightarrow> nat \<Rightarrow> rgba \<times> block \<Rightarrow> ref \<times> heap \<Rightarrow> exn + ref \<times> heap" where
  "draw_tinted W H p s = draw_block (fst p) W H (snd p) s"

definition tint_all :: "nat \<Rightarrow> nat \<Rightarrow> (rgba \<times> block) list \<Rightarrow> image \<Rightarrow> image" where
  "tint_all W H ps im =
     foldl (\<lambda>im (fill, blk). tint_rectangle fill (block_rectangle W H blk) im) im ps"

text \<open>The tints of the rectangles that cover a pixel, in the order given.\<close>

definition covering :: "nat \<times> nat \<Rightarrow> nat \<Rightarrow> nat \<Rightarrow> nat \<Rightarrow> nat \<Rightarrow> (rgba \<times> block) list \<Rightarrow> rgba list" where
  "covering sz W H x y ps =
     map fst (filter (\<lambda>p. in_rectangle sz (block_rectangle W H (snd p)) x y) ps)"

subsection \<open>The blocks of a page by category\<close>

definition on_page :: "int \<Rightarrow> string list \<Rightarrow> block list \<Rightarrow> block list" where
  "on_page page_num types all_blocks =
     filter (\<lambda>blk. Page blk = page_num \<and> BlockType blk \<in> set types) all_blocks"

definition header_types :: "string list" where
  "header_types = [''LAYOUT_SECTION_HEADER'', ''LAYOUT_HEADER'', ''LAYOUT_TITLE'']"

definition drawn_types :: "string list" where
  "drawn_types = [''LAYOUT_FIGURE'', ''LAYOUT_TABLE'', ''LAYOUT_TEXT''] @ header_types
                 @ [''LAYOUT_FOOTER'']"

text \<open>The tinted rectangles of a page, in category order and, within a category, in the
  order of \<open>all_blocks\<close>.\<close>

definition page_painting :: "block list \<Rightarrow> int \<Rightarrow> (rgba \<times> block) list" where
  "page_painting all_blocks page_num =
     painting_order (on_page page_num [''LAYOUT_FIGURE''] all_blocks)
       (on_page page_num [''LAYOUT_TABLE''] all_blocks)
       (on_page page_num [''LAYOUT_TEXT''] all_blocks)
       (on_page page_num header_types all_blocks)
       (on_page page_num [''LAYOUT_FOOTER''] all_blocks)"

subsection \<open>The pixel rectangle as the specification words it\<close>



subsection \<open>Inputs for the examples\<close>

definition white_page :: image where
  "white_page = RGB_image (10, 20) (\<lambda>x y. (255, 255, 255))"

definition box_block :: "string \<Rightarrow> rat \<Rightarrow> rat \<Rightarrow> rat \<Rightarrow> rat \<Rightarrow> block" where
  "box_block block_type l t w h =
     \<lparr>BlockType = block_type, Page = 1,
      Geometry = \<lparr>BoundingBox = \<lparr>Left = l, Top = t, Width = w, Height = h\<rparr>\<rparr>,
      Text = None\<rparr>"


subsection \<open>One loop driven by the colour table\<close>

text \<open>
  Following the specification's design note: a single loop over the entries of the
  category-to-colour table, each paired with the regions of its category, that draws the
  regions of an entry in the colour of that entry.
\<close>

definition draw_by_table ::
    "(string \<times> rgba) list \<Rightarrow> block list list \<Rightarrow> nat \<Rightarrow> nat \<Rightarrow> ref \<times> heap \<Rightarrow> exn + ref \<times> heap" where
  "draw_by_table style_table groups W H s =
     for_each (\<lambda>entry. for_each (draw_block (snd (fst entry)) W H) (snd entry))
       (zip style_table groups) s"

subsection \<open>Processing without error\<close>

fun is_error :: "ui \<Rightarrow> bool" where
  "is_error (St_error m) = True"
| "is_error other = False"

text \<open>
  A page is processed without error when it can be rasterised, every rectangle drawn on
  it is accepted by \<open>draw.rectangle\<close>, and every line block of the page has a \<open>Text\<close>.
\<close>

definition page_ok :: "(exn + image) list \<Rightarrow> block list \<Rightarrow> nat \<Rightarrow> bool" where
  "page_ok pdf_document all_blocks page_num =
     (case pdf_document ! (page_num - 1) of
        Inl e \<Rightarrow> False
      | Inr img \<Rightarrow>
          list_all (\<lambda>p. valid_box (block_rectangle (fst (image_size img)) (snd (image_size img)) (snd p)))
            (page_painting all_blocks (int page_num))
          \<and> list_all (\<lambda>blk. Text blk \<noteq> None) (on_page (int page_num) [''LINE''] all_blocks))"

text \<open>
  A parsed document is processed without error when the PDF opens, the document has an
  entry under its key, and every page is processed without error.
\<close>

definition document_ok :: "env \<Rightarrow> string \<Rightarrow> (string \<Rightarrow> part list option) \<Rightarrow> bool" where
  "document_ok env pdf_path content =
     (case fitz_open env pdf_path of
        Inl e \<Rightarrow> False
      | Inr pdf_document \<Rightarrow>
          (case content (replace_backslash (normpath env (prefix @ ''/'' @ pdf_path))) of
             None \<Rightarrow> False
           | Some textract_parts \<Rightarrow>
               list_all (page_ok pdf_document (concat (map Blocks textract_parts)))
                 [1..<Suc (length pdf_document)]))"

text \<open>
  A selected file is processed without error when the fetch returns a content that is
  not empty, the content parses, and the parsed document is processed without error.
\<close>

definition file_ok :: "env \<Rightarrow> string \<Rightarrow> string \<Rightarrow> string \<Rightarrow> bool" where
  "file_ok env selected_folder selected_file output_path =
     (case requests_get env (''https://raw.githubusercontent.com/'' @ repo @ ''/outputs/''
                              @ replace_backslash output_path) of
        Inl e \<Rightarrow> False
      | Inr raw \<Rightarrow>
          raw \<noteq> [] \<and>
          (case json_loads env raw of
             Inl e \<Rightarrow> False
           | Inr content \<Rightarrow>
               document_ok env (selected_folder @ ''/'' @ selected_file @ ''.pdf'') content))"

text \<open>
  The fetch gives nothing to parse: \<open>requests\<close> raises a \<open>RequestException\<close>, or the
  content is empty.
\<close>

definition nothing_fetched :: "env \<Rightarrow> string \<Rightarrow> bool" where
  "nothing_fetched env output_path =
     (case requests_get env (''https://raw.githubusercontent.com/'' @ repo @ ''/outputs/''
                              @ replace_backslash output_path) of
        Inl e \<Rightarrow> (case e of RequestException m \<Rightarrow> True | _ \<Rightarrow> False)
      | Inr raw \<Rightarrow> raw = [])"

text \<open>Neither an error message nor a traceback among what is shown.\<close>

definition quiet :: "ui list \<Rightarrow> bool" where
  "quiet new = (\<not> list_ex is_error new \<and> St_traceback \<notin> set new)"

text \<open>A collaborator for the examples: the fetch and the parser work, the PDF does not open.\<close>

definition broken_pdf_env :: env where
  "broken_pdf_env =
     \<lparr>requests_get = (\<lambda>url. Inr ''{}''),
      json_loads = (\<lambda>raw. Inr (\<lambda>key. None)),
      fitz_open = (\<lambda>path. Inl (OtherException ''no such file'')),
      normpath = (\<lambda>path. path)\<rparr>"

section \<open>Properties of the drawing operations\<close>

lemma alpha_composite_pixel_transparent [simp]:
  "alpha_composite_pixel dst (r, g, b, 0) = dst"
  by (simp add: alpha_composite_pixel_def split: prod.splits)

lemma getpixel_convert_RGBA [simp]: "getpixel (convert_RGBA im) x y = getpixel im x y"
  by (cases im) simp_all

lemma image_size_convert_RGBA [simp]: "image_size (convert_RGBA im) = image_size im"
  by (cases im) simp_all

lemma image_mode_convert_RGBA [simp]: "image_mode (convert_RGBA im) = RGBA"
  by (cases im) simp_all

lemma alpha_composite_overlay:
  "alpha_composite (convert_RGBA im) (overlay_layer (image_size im) box fill) = Inr (tint_rectangle fill box im)"
  by (cases im) (auto simp: overlay_layer_def tint_rectangle_def fun_eq_iff)

lemma draw_block_valid:
  assumes "img < length h" and "valid_box (block_rectangle W H blk)"
  shows "draw_block fill W H blk (img, h) =
     Inr (length h + 2, h @ [overlay_layer (image_size (h ! img)) (block_rectangle W H blk) fill,
                             convert_RGBA (h ! img),
                             tint_rectangle fill (block_rectangle W H blk) (h ! img)])"
  using assms
  by (auto simp: draw_block_def Image_new_RGBA_def ImageDraw_rectangle_def Image_convert_RGBA_def
      Image_alpha_composite_def and_then_def valid_box_def nth_append overlay_layer_def[symmetric]
      alpha_composite_overlay split: prod.splits)

lemma draw_block_invalid:
  assumes "\<not> valid_box (block_rectangle W H blk)"
  shows "\<exists>m. draw_block fill W H blk (img, h) = Inl (ValueError m)"
  using assms
  by (auto simp: draw_block_def Image_new_RGBA_def ImageDraw_rectangle_def and_then_def valid_box_def split: prod.splits)


lemma for_each_append:
  "for_each body (xs @ ys) s = and_then (for_each body xs s) (for_each body ys)"
  by (induction xs arbitrary: s) (auto simp: and_then_def split: sum.splits)

lemma for_each_map: "for_each body (map f xs) s = for_each (\<lambda>x. body (f x)) xs s"
  by (induction xs arbitrary: s) (auto simp: and_then_def split: sum.splits)

lemma for_each_append_fun:
  "for_each body (xs @ ys) = (\<lambda>s. and_then (for_each body xs s) (for_each body ys))"
  by (rule ext) (rule for_each_append)

lemma for_each_map_fun: "for_each body (map f xs) = for_each (\<lambda>x. body (f x)) xs"
  by (rule ext) (rule for_each_map)

lemma draw_tinted_Pair: "draw_tinted W H (fill, blk) = draw_block fill W H blk"
  by (rule ext) (simp add: draw_tinted_def)

lemma draw_overlays_painting_order:
  "draw_overlays F T X Hd Ft img h =
     for_each (draw_tinted (fst (image_size (h ! img))) (snd (image_size (h ! img))))
       (painting_order F T X Hd Ft) (img, h)"
  by (simp add: draw_overlays_def painting_order_def for_each_append_fun for_each_map_fun
      draw_tinted_Pair split: prod.splits)

lemma tint_all_Nil [simp]: "tint_all W H [] im = im"
  by (simp add: tint_all_def)

lemma tint_all_Cons [simp]:
  "tint_all W H (p # ps) im = tint_all W H ps (tint_rectangle (fst p) (block_rectangle W H (snd p)) im)"
  by (simp add: tint_all_def split: prod.splits)

lemma for_each_draw_valid:
  assumes "img < length h" and "\<forall>p \<in> set ps. valid_box (block_rectangle W H (snd p))"
  shows "\<exists>img' ext. for_each (draw_tinted W H) ps (img, h) = Inr (img', h @ ext)
           \<and> img' < length (h @ ext)
           \<and> (h @ ext) ! img' = tint_all W H ps (h ! img)
           \<and> (ps = [] \<longrightarrow> img' = img \<and> ext = [])
           \<and> (ps \<noteq> [] \<longrightarrow> length h \<le> img')"
  using assms
proof (induction ps arbitrary: img h)
  case Nil
  then show ?case by simp
next
  case (Cons p ps)
  let ?box = "block_rectangle W H (snd p)"
  let ?h1 = "h @ [overlay_layer (image_size (h ! img)) ?box (fst p), convert_RGBA (h ! img),
                  tint_rectangle (fst p) ?box (h ! img)]"
  have step: "draw_tinted W H p (img, h) = Inr (length h + 2, ?h1)"
    using Cons.prems by (simp add: draw_tinted_def draw_block_valid)
  have "length h + 2 < length ?h1" by simp
  moreover have "\<forall>q \<in> set ps. valid_box (block_rectangle W H (snd q))"
    using Cons.prems by simp
  ultimately obtain img' ext where rest:
    "for_each (draw_tinted W H) ps (length h + 2, ?h1) = Inr (img', ?h1 @ ext)"
    "img' < length (?h1 @ ext)"
    "(?h1 @ ext) ! img' = tint_all W H ps (?h1 ! (length h + 2))"
    "ps \<noteq> [] \<longrightarrow> length ?h1 \<le> img'"
    "ps = [] \<longrightarrow> img' = length h + 2 \<and> ext = []"
    using Cons.IH [of "length h + 2" ?h1] by blast
  have nth: "?h1 ! (length h + 2) = tint_rectangle (fst p) ?box (h ! img)"
    by (simp add: nth_append)
  show ?case
  proof (intro exI conjI)
    show "for_each (draw_tinted W H) (p # ps) (img, h) = Inr (img', h @ (drop (length h) ?h1 @ ext))"
      using step rest(1) by (simp add: and_then_def)
    show "img' < length (h @ drop (length h) ?h1 @ ext)"
      using rest(2) by simp
    show "(h @ drop (length h) ?h1 @ ext) ! img' = tint_all W H (p # ps) (h ! img)"
      using rest(3) nth by simp
    show "p # ps = [] \<longrightarrow> img' = img \<and> drop (length h) ?h1 @ ext = []" by simp
    show "p # ps \<noteq> [] \<longrightarrow> length h \<le> img'"
      using rest(4,5) by (cases "ps = []") simp_all
  qed
qed

lemma for_each_draw_invalid:
  assumes "img < length h" and "\<exists>p \<in> set ps. \<not> valid_box (block_rectangle W H (snd p))"
  shows "\<exists>m. for_each (draw_tinted W H) ps (img, h) = Inl (ValueError m)"
  using assms
proof (induction ps arbitrary: img h)
  case Nil
  then show ?case by simp
next
  case (Cons p ps)
  show ?case
  proof (cases "valid_box (block_rectangle W H (snd p))")
    case False
    then show ?thesis
      using draw_block_invalid [of W H "snd p" "fst p" img h]
      by (auto simp: draw_tinted_def and_then_def)
  next
    case True
    then have step: "draw_tinted W H p (img, h) = Inr (length h + 2,
        h @ [overlay_layer (image_size (h ! img)) (block_rectangle W H (snd p)) (fst p), convert_RGBA (h ! img),
                  tint_rectangle (fst p) (block_rectangle W H (snd p)) (h ! img)])"
      using Cons.prems by (simp add: draw_tinted_def draw_block_valid)
    from True Cons.prems have "\<exists>q \<in> set ps. \<not> valid_box (block_rectangle W H (snd q))"
      by auto
    then show ?thesis
      using Cons.IH [of "length h + 2"] step by (simp add: and_then_def)
  qed
qed

lemma image_size_tint_rectangle [simp]: "image_size (tint_rectangle fill box im) = image_size im"
  by (simp add: tint_rectangle_def)

lemma image_mode_tint_rectangle [simp]: "image_mode (tint_rectangle fill box im) = RGBA"
  by (simp add: tint_rectangle_def)

lemma getpixel_tint_rectangle:
  "getpixel (tint_rectangle fill box im) x y =
     (if in_rectangle (image_size im) box x y
      then alpha_composite_pixel (getpixel im x y) fill else getpixel im x y)"
  by (simp add: tint_rectangle_def)

lemma image_size_tint_all [simp]: "image_size (tint_all W H ps im) = image_size im"
  by (induction ps arbitrary: im) simp_all

lemma image_mode_tint_all: "ps \<noteq> [] \<Longrightarrow> image_mode (tint_all W H ps im) = RGBA"
proof (induction ps arbitrary: im)
  case Nil
  then show ?case by simp
next
  case (Cons p ps)
  then show ?case by (cases "ps = []") simp_all
qed

lemma getpixel_tint_all:
  "getpixel (tint_all W H ps im) x y =
     foldl alpha_composite_pixel (getpixel im x y) (covering (image_size im) W H x y ps)"
  by (induction ps arbitrary: im) (simp_all add: covering_def getpixel_tint_rectangle)


lemma foldl_group_block:
  "foldl (group_block p) g bs =
     \<lparr>page_line_blocks = page_line_blocks g @ on_page p [''LINE''] bs,
      page_word_blocks = page_word_blocks g @ on_page p [''WORD''] bs,
      page_figure_blocks = page_figure_blocks g @ on_page p [''LAYOUT_FIGURE''] bs,
      page_table_blocks = page_table_blocks g @ on_page p [''LAYOUT_TABLE''] bs,
      page_text_blocks = page_text_blocks g @ on_page p [''LAYOUT_TEXT''] bs,
      page_header_blocks = page_header_blocks g @ on_page p header_types bs,
      page_footer_blocks = page_footer_blocks g @ on_page p [''LAYOUT_FOOTER''] bs\<rparr>"
proof (induction bs arbitrary: g)
  case Nil
  then show ?case by (simp add: on_page_def)
next
  case (Cons b bs)
  show ?case
    unfolding foldl_Cons Cons.IH
    by (simp add: group_block_def on_page_def header_types_def Let_def)
qed

lemma group_page_blocks_eq:
  "group_page_blocks all_blocks p =
     \<lparr>page_line_blocks = on_page p [''LINE''] all_blocks,
      page_word_blocks = on_page p [''WORD''] all_blocks,
      page_figure_blocks = on_page p [''LAYOUT_FIGURE''] all_blocks,
      page_table_blocks = on_page p [''LAYOUT_TABLE''] all_blocks,
      page_text_blocks = on_page p [''LAYOUT_TEXT''] all_blocks,
      page_header_blocks = on_page p header_types all_blocks,
      page_footer_blocks = on_page p [''LAYOUT_FOOTER''] all_blocks\<rparr>"
  by (simp add: group_page_blocks_def foldl_group_block empty_groups_def)

lemma render_page_painting:
  "render_page all_blocks p img h =
     for_each (draw_tinted (fst (image_size (h ! img))) (snd (image_size (h ! img))))
       (page_painting all_blocks p) (img, h)"
  by (simp add: render_page_def group_page_blocks_eq draw_overlays_painting_order page_painting_def)

subsection \<open>Coordinates\<close>


lemma py_int_nonneg_ge0: "0 \<le> q \<Longrightarrow> 0 \<le> py_int q"
  by (simp add: py_int_def)

lemma valid_box_block_rectangle:
  assumes "0 \<le> Width (BoundingBox (Geometry blk))" "0 \<le> Height (BoundingBox (Geometry blk))"
  shows "valid_box (block_rectangle W H blk)"
  using assms by (simp add: valid_box_def block_rectangle_def Let_def py_int_nonneg_ge0)





text \<open>
  The example of the specification: on a page of 1000 by 2000 pixels the table region
  with left 0.1, top 0.1, width 0.2 and height 0.05 is the rectangle from pixel
  (100, 200) to pixel (300, 300).
\<close>

lemma end_to_end_example:
  "block_rectangle 1000 2000 (box_block ''LAYOUT_TABLE'' (1/10) (1/10) (1/5) (1/20))
     = ((100, 200), (300, 300))"
  by (simp add: block_rectangle_def box_block_def py_int_def)

subsection \<open>The result of rendering a page\<close>

lemma render_page_valid:
  assumes "img < length h" and "image_size (h ! img) = (W, H)"
    and "\<forall>p \<in> set (page_painting all_blocks page_num). valid_box (block_rectangle W H (snd p))"
  shows "\<exists>img' ext. render_page all_blocks page_num img h = Inr (img', h @ ext)
           \<and> img' < length (h @ ext)
           \<and> (h @ ext) ! img' = tint_all W H (page_painting all_blocks page_num) (h ! img)
           \<and> (page_painting all_blocks page_num = [] \<longrightarrow> img' = img \<and> ext = [])
           \<and> (page_painting all_blocks page_num \<noteq> [] \<longrightarrow> length h \<le> img')"
  using for_each_draw_valid [OF assms(1,3)] assms(2) by (simp add: render_page_painting)

lemma render_page_invalid:
  assumes "img < length h" and "image_size (h ! img) = (W, H)"
    and "\<exists>p \<in> set (page_painting all_blocks page_num). \<not> valid_box (block_rectangle W H (snd p))"
  shows "\<exists>m. render_page all_blocks page_num img h = Inl (ValueError m)"
  using for_each_draw_invalid [OF assms(1,3)] assms(2) by (simp add: render_page_painting)

lemma render_page_Inr:
  assumes "img < length h" and "image_size (h ! img) = (W, H)"
    and "render_page all_blocks page_num img h = Inr (img', h')"
  shows "\<exists>ext. h' = h @ ext
           \<and> img' < length h'
           \<and> h' ! img' = tint_all W H (page_painting all_blocks page_num) (h ! img)
           \<and> (page_painting all_blocks page_num = [] \<longrightarrow> img' = img \<and> ext = [])
           \<and> (page_painting all_blocks page_num \<noteq> [] \<longrightarrow> length h \<le> img')"
proof -
  have "\<forall>p \<in> set (page_painting all_blocks page_num). valid_box (block_rectangle W H (snd p))"
    using render_page_invalid [OF assms(1,2), of all_blocks page_num] assms(3) by auto
  from render_page_valid [OF assms(1,2) this] assms(3) show ?thesis by auto
qed

lemma page_painting_valid:
  assumes "\<forall>blk \<in> set all_blocks.
             0 \<le> Width (BoundingBox (Geometry blk)) \<and> 0 \<le> Height (BoundingBox (Geometry blk))"
  shows "\<forall>p \<in> set (page_painting all_blocks page_num). valid_box (block_rectangle W H (snd p))"
  using assms
  by (auto simp: page_painting_def painting_order_def on_page_def valid_box_block_rectangle)

lemma page_painting_ignored:
  assumes "BlockType blk \<notin> set drawn_types"
  shows "page_painting (bs1 @ blk # bs2) page_num = page_painting (bs1 @ bs2) page_num"
  using assms by (simp add: page_painting_def on_page_def drawn_types_def header_types_def)

lemma example_table_rendered:
  "\<exists>img' h'. render_page [box_block ''LAYOUT_TABLE'' 0 0 1 1] 1 0 [white_page] = Inr (img', h')"
proof -
  have "image_size ([white_page] ! 0) = (10, 20)"
    by (simp add: white_page_def)
  moreover have "\<forall>p \<in> set (page_painting [box_block ''LAYOUT_TABLE'' 0 0 1 1] 1).
      valid_box (block_rectangle 10 20 (snd p))"
    by (rule page_painting_valid) (simp add: box_block_def)
  ultimately show ?thesis
    using render_page_valid [of 0 "[white_page]" 10 20 "[box_block ''LAYOUT_TABLE'' 0 0 1 1]" 1]
    by auto
qed

lemma example_table_painted:
  "page_painting [box_block ''LAYOUT_TABLE'' 0 0 1 1] 1 \<noteq> []"
  by (simp add: page_painting_def painting_order_def on_page_def box_block_def)

lemma example_line_not_painted:
  "page_painting [box_block ''LINE'' 0 0 1 1] 1 = []"
  by (simp add: page_painting_def painting_order_def on_page_def box_block_def header_types_def)

subsection \<open>Statistics and the colour table\<close>

lemma foldl_classify_block:
  "foldl classify_block t bs =
     \<lparr>line_blocks = line_blocks t @ filter (\<lambda>b. BlockType b = ''LINE'') bs,
      word_blocks = word_blocks t @ filter (\<lambda>b. BlockType b = ''WORD'') bs,
      figure_blocks = figure_blocks t @ filter (\<lambda>b. BlockType b = ''LAYOUT_FIGURE'') bs,
      table_blocks = table_blocks t @ filter (\<lambda>b. BlockType b = ''LAYOUT_TABLE'') bs\<rparr>"
proof (induction bs arbitrary: t)
  case Nil
  then show ?case by simp
next
  case (Cons b bs)
  show ?case
    unfolding foldl_Cons Cons.IH
    by (simp add: classify_block_def)
qed

lemma statistics_eq:
  "statistics n all_blocks =
     \<lparr>Page_Count = n,
      Line_Count = length (filter (\<lambda>b. BlockType b = ''LINE'') all_blocks),
      Word_Count = length (filter (\<lambda>b. BlockType b = ''WORD'') all_blocks),
      Figure_Count = length (filter (\<lambda>b. BlockType b = ''LAYOUT_FIGURE'') all_blocks),
      Table_Count = length (filter (\<lambda>b. BlockType b = ''LAYOUT_TABLE'') all_blocks)\<rparr>"
  by (simp add: statistics_def classify_blocks_def foldl_classify_block)

lemma for_each_Cons_fun:
  "for_each body (x # xs) = (\<lambda>s. and_then (body x s) (for_each body xs))"
  by (rule ext) simp

lemma for_each_Nil_fun: "for_each body [] = Inr"
  by (rule ext) simp

lemma and_then_Inr [simp]: "and_then r Inr = r"
  by (simp add: and_then_def split: sum.splits)

subsection \<open>Showing the selected file\<close>

lemma quiet_simps [simp]:
  "quiet []"
  "quiet (a @ b) = (quiet a \<and> quiet b)"
  "quiet (u # us) = (\<not> is_error u \<and> u \<noteq> St_traceback \<and> quiet us)"
  by (auto simp: quiet_def)

lemma for_each_quiet:
  assumes "\<And>x s. x \<in> set xs \<Longrightarrow> ok x \<Longrightarrow> \<exists>new. body x s = Inr (s @ new) \<and> quiet new"
    and "\<And>x s. x \<in> set xs \<Longrightarrow> \<not> ok x \<Longrightarrow> \<exists>e new. body x s = Inl (e, s @ new) \<and> quiet new"
  shows "(list_all ok xs \<longrightarrow> (\<exists>new. for_each body xs s = Inr (s @ new) \<and> quiet new))
       \<and> (\<not> list_all ok xs \<longrightarrow> (\<exists>e new. for_each body xs s = Inl (e, s @ new) \<and> quiet new))"
  using assms
proof (induction xs arbitrary: s)
  case Nil
  then show ?case by simp
next
  case (Cons x xs)
  show ?case
  proof (cases "ok x")
    case False
    then show ?thesis
      using Cons.prems(2) [of x s] by (auto simp: and_then_def)
  next
    case True
    then obtain new where step: "body x s = Inr (s @ new)" and q: "quiet new"
      using Cons.prems(1) [of x s] by auto
    have IH: "(list_all ok xs \<longrightarrow> (\<exists>new'. for_each body xs (s @ new) = Inr ((s @ new) @ new') \<and> quiet new'))
       \<and> (\<not> list_all ok xs \<longrightarrow> (\<exists>e new'. for_each body xs (s @ new) = Inl (e, (s @ new) @ new') \<and> quiet new'))"
      using Cons.prems by (intro Cons.IH) auto
    show ?thesis
    proof (cases "list_all ok xs")
      case True
      then obtain new' where "for_each body xs (s @ new) = Inr ((s @ new) @ new')" "quiet new'"
        using IH by blast
      then have "for_each body (x # xs) s = Inr (s @ (new @ new')) \<and> quiet (new @ new')"
        using step q by (simp add: and_then_def)
      then show ?thesis using True \<open>ok x\<close> by auto
    next
      case False
      then obtain e new' where "for_each body xs (s @ new) = Inl (e, (s @ new) @ new')" "quiet new'"
        using IH by blast
      then have "for_each body (x # xs) s = Inl (e, s @ (new @ new')) \<and> quiet (new @ new')"
        using step q by (simp add: and_then_def)
      then show ?thesis using False by auto
    qed
  qed
qed

lemma show_line_quiet:
  "(Text blk \<noteq> None \<longrightarrow> (\<exists>new. show_line blk s = Inr (s @ new) \<and> quiet new))
 \<and> (\<not> Text blk \<noteq> None \<longrightarrow> (\<exists>e new. show_line blk s = Inl (e, s @ new) \<and> quiet new))"
  by (auto simp: show_line_def split: option.splits)

lemma show_lines_quiet:
  "(list_all (\<lambda>blk. Text blk \<noteq> None) blks \<longrightarrow>
      (\<exists>new. for_each show_line blks s = Inr (s @ new) \<and> quiet new))
 \<and> (\<not> list_all (\<lambda>blk. Text blk \<noteq> None) blks \<longrightarrow>
      (\<exists>e new. for_each show_line blks s = Inl (e, s @ new) \<and> quiet new))"
  by (rule for_each_quiet) (use show_line_quiet in blast)+

lemma show_page_render:
  "show_page pdf_document all_blocks page_num shown =
     (case pdf_document ! (page_num - 1) of
        Inl e \<Rightarrow> Inl (e, shown @ [St_subheader (''Original PDF Page '' @ str_nat page_num)])
      | Inr img \<Rightarrow>
          (case render_page all_blocks (int page_num) 0 [img] of
             Inl e \<Rightarrow> Inl (e, shown @ [St_subheader (''Original PDF Page '' @ str_nat page_num)])
           | Inr (img', h) \<Rightarrow>
               for_each show_line (on_page (int page_num) [''LINE''] all_blocks)
                 (shown @ [St_subheader (''Original PDF Page '' @ str_nat page_num)]
                        @ [St_image (h ! img'), St_subheader ''Extracted Text''])))"
  by (simp add: show_page_def render_page_def Let_def group_page_blocks_eq
      split: sum.splits prod.splits)

lemma show_page_quiet:
  "(page_ok pdf_document all_blocks page_num \<longrightarrow>
      (\<exists>new. show_page pdf_document all_blocks page_num s = Inr (s @ new) \<and> quiet new))
 \<and> (\<not> page_ok pdf_document all_blocks page_num \<longrightarrow>
      (\<exists>e new. show_page pdf_document all_blocks page_num s = Inl (e, s @ new) \<and> quiet new))"
proof (cases "pdf_document ! (page_num - 1)")
  case (Inl e)
  then show ?thesis by (simp add: show_page_render page_ok_def)
next
  case (Inr img)
  obtain W H where size: "image_size ([img] ! 0) = (W, H)"
    by (cases "image_size ([img] ! 0)")
  let ?valid = "\<forall>p \<in> set (page_painting all_blocks (int page_num)). valid_box (block_rectangle W H (snd p))"
  let ?lines = "on_page (int page_num) [''LINE''] all_blocks"
  let ?s1 = "s @ [St_subheader (''Original PDF Page '' @ str_nat page_num)]"
  show ?thesis
  proof (cases ?valid)
    case False
    then obtain m where "render_page all_blocks (int page_num) 0 [img] = Inl (ValueError m)"
      using render_page_invalid [OF _ size, of all_blocks "int page_num"] by auto
    moreover have "\<not> page_ok pdf_document all_blocks page_num"
      using False Inr size by (simp add: page_ok_def list_all_iff)
    ultimately show ?thesis
      using Inr by (simp add: show_page_render)
  next
    case True
    then obtain img' h where r: "render_page all_blocks (int page_num) 0 [img] = Inr (img', h)"
      using render_page_valid [OF _ size, of all_blocks "int page_num"] by auto
    have ok: "page_ok pdf_document all_blocks page_num = list_all (\<lambda>blk. Text blk \<noteq> None) ?lines"
      using True Inr size by (simp add: page_ok_def list_all_iff)
    let ?s2 = "?s1 @ [St_image (h ! img'), St_subheader ''Extracted Text'']"
    have eq: "show_page pdf_document all_blocks page_num s = for_each show_line ?lines ?s2"
      using Inr r by (simp add: show_page_render)
    show ?thesis
    proof (cases "list_all (\<lambda>blk. Text blk \<noteq> None) ?lines")
      case True
      then obtain new where "for_each show_line ?lines ?s2 = Inr (?s2 @ new)" "quiet new"
        using show_lines_quiet [of ?lines ?s2] by blast
      then have "show_page pdf_document all_blocks page_num s
          = Inr (s @ ([St_subheader (''Original PDF Page '' @ str_nat page_num),
                       St_image (h ! img'), St_subheader ''Extracted Text''] @ new))
        \<and> quiet ([St_subheader (''Original PDF Page '' @ str_nat page_num),
                       St_image (h ! img'), St_subheader ''Extracted Text''] @ new)"
        using eq by simp
      then show ?thesis using ok True by blast
    next
      case False
      then obtain e new where "for_each show_line ?lines ?s2 = Inl (e, ?s2 @ new)" "quiet new"
        using show_lines_quiet [of ?lines ?s2] by blast
      then have "show_page pdf_document all_blocks page_num s
          = Inl (e, s @ ([St_subheader (''Original PDF Page '' @ str_nat page_num),
                       St_image (h ! img'), St_subheader ''Extracted Text''] @ new))
        \<and> quiet ([St_subheader (''Original PDF Page '' @ str_nat page_num),
                       St_image (h ! img'), St_subheader ''Extracted Text''] @ new)"
        using eq by simp
      then show ?thesis using ok False by blast
    qed
  qed
qed

lemma display_legends_quiet:
  "\<exists>new. display_legends_with_columns s = s @ new \<and> quiet new"
  by (simp add: display_legends_with_columns_def BLOCK_COLORS_def)

lemma show_pages_quiet:
  "(list_all (page_ok pdf_document all_blocks) pages \<longrightarrow>
      (\<exists>new. for_each (show_page pdf_document all_blocks) pages s = Inr (s @ new) \<and> quiet new))
 \<and> (\<not> list_all (page_ok pdf_document all_blocks) pages \<longrightarrow>
      (\<exists>e new. for_each (show_page pdf_document all_blocks) pages s = Inl (e, s @ new) \<and> quiet new))"
  by (rule for_each_quiet) (use show_page_quiet in blast)+

lemma show_document_quiet:
  "(document_ok env pdf_path content \<longrightarrow>
      (\<exists>new. show_document env selected_file pdf_path content s = Inr (s @ new) \<and> quiet new))
 \<and> (\<not> document_ok env pdf_path content \<longrightarrow>
      (\<exists>e new. show_document env selected_file pdf_path content s = Inl (e, s @ new) \<and> quiet new))"
proof (cases "fitz_open env pdf_path")
  case (Inl e)
  then show ?thesis by (simp add: show_document_def document_ok_def)
next
  case (Inr pdf_document)
  show ?thesis
  proof (cases "content (replace_backslash (normpath env (prefix @ ''/'' @ pdf_path)))")
    case None
    then show ?thesis using Inr by (simp add: show_document_def document_ok_def)
  next
    case (Some textract_parts)
    let ?blocks = "concat (map Blocks textract_parts)"
    let ?pages = "[1..<Suc (length pdf_document)]"
    obtain legend where legend:
      "display_legends_with_columns (s @ [St_statistics (statistics (length pdf_document) ?blocks)])
         = (s @ [St_statistics (statistics (length pdf_document) ?blocks)]) @ legend" "quiet legend"
      using display_legends_quiet by blast
    let ?new = "[St_statistics (statistics (length pdf_document) ?blocks)] @ legend
                @ [St_header (''Processed File: '' @ selected_file)]"
    have eq: "show_document env selected_file pdf_path content s
        = for_each (show_page pdf_document ?blocks) ?pages (s @ ?new)"
      using Inr Some legend(1) by (simp add: show_document_def Let_def)
    have ok: "document_ok env pdf_path content = list_all (page_ok pdf_document ?blocks) ?pages"
      using Inr Some by (simp add: document_ok_def)
    have q: "quiet ?new" using legend(2) by simp
    show ?thesis
    proof (cases "list_all (page_ok pdf_document ?blocks) ?pages")
      case True
      then obtain new where
        "for_each (show_page pdf_document ?blocks) ?pages (s @ ?new) = Inr ((s @ ?new) @ new)"
        "quiet new"
        using show_pages_quiet [of pdf_document ?blocks ?pages "s @ ?new"] by blast
      then have "show_document env selected_file pdf_path content s = Inr (s @ (?new @ new))
          \<and> quiet (?new @ new)"
        using eq q by simp
      then show ?thesis using ok True by blast
    next
      case False
      then obtain e new where
        "for_each (show_page pdf_document ?blocks) ?pages (s @ ?new) = Inl (e, (s @ ?new) @ new)"
        "quiet new"
        using show_pages_quiet [of pdf_document ?blocks ?pages "s @ ?new"] by blast
      then have "show_document env selected_file pdf_path content s = Inl (e, s @ (?new @ new))
          \<and> quiet (?new @ new)"
        using eq q by simp
      then show ?thesis using ok False by blast
    qed
  qed
qed

lemma quiet_no_error: "quiet new \<Longrightarrow> \<not> list_ex is_error new \<and> St_traceback \<notin> set new"
  by (simp add: quiet_def)

section \<open>The claims\<close>

text \<open>
  Claim C1. Whenever a page is rendered, each pixel of the output is the pixel of the
  page image with the tints of the rectangles that cover it composited onto it one after
  the other by Pillow's "over" operation, in the fixed order Figure, Table, Text,
  Header/Title, Footer (and in the order of the block list within one category),
  whatever the order of the blocks in the input. So where two regions of different
  categories overlap, the pixel is the upper category's tint over (the lower category's
  tint over the page).
\<close>

theorem overlays_composited_in_category_order:
  assumes "img < length h" and "image_size (h ! img) = (W, H)"
    and "render_page all_blocks page_num img h = Inr (img', h')"
  shows "getpixel (h' ! img') x y =
           foldl alpha_composite_pixel (getpixel (h ! img) x y)
             (covering (W, H) W H x y (page_painting all_blocks page_num))"
proof -
  from render_page_Inr [OF assms]
  have "h' ! img' = tint_all W H (page_painting all_blocks page_num) (h ! img)" by blast
  then show ?thesis using assms(2) by (simp add: getpixel_tint_all)
qed

text \<open>
  A footer block listed before a text block that overlaps it, on a white page: at the
  pixel (2, 3) the green of the text is composited first and the yellow of the footer
  on top of it. The result is neither the footer's tint nor an average.
\<close>

theorem overlays_composited_in_category_order_witness:
  "\<exists>img' h'. render_page [box_block ''LAYOUT_FOOTER'' 0 0 (1/2) (1/2),
                            box_block ''LAYOUT_TEXT'' (1/10) (1/10) 1 1] 1 0 [white_page]
                 = Inr (img', h')
     \<and> getpixel (h' ! img') 2 3 =
         alpha_composite_pixel (alpha_composite_pixel (255, 255, 255, 255) (0, 255, 0, 64))
           (255, 255, 0, 64)
     \<and> getpixel (h' ! img') 2 3 = (207, 255, 143, 255)"
proof -
  let ?blocks = "[box_block ''LAYOUT_FOOTER'' 0 0 (1/2) (1/2),
                  box_block ''LAYOUT_TEXT'' (1/10) (1/10) 1 1]"
  have size: "image_size ([white_page] ! 0) = (10, 20)"
    by (simp add: white_page_def)
  have "\<forall>blk \<in> set ?blocks.
          0 \<le> Width (BoundingBox (Geometry blk)) \<and> 0 \<le> Height (BoundingBox (Geometry blk))"
    by (simp add: box_block_def)
  then have "\<forall>p \<in> set (page_painting ?blocks 1). valid_box (block_rectangle 10 20 (snd p))"
    by (rule page_painting_valid)
  from render_page_valid [OF _ size this]
  obtain img' h' where r: "render_page ?blocks 1 0 [white_page] = Inr (img', h')"
    by auto
  have cov: "covering (10, 20) 10 20 2 3 (page_painting ?blocks 1)
      = [(0, 255, 0, 64), (255, 255, 0, 64)]"
    by (simp add: covering_def page_painting_def painting_order_def on_page_def header_types_def
        box_block_def block_rectangle_def in_rectangle_def py_int_def)
  have base: "getpixel white_page 2 3 = (255, 255, 255, 255)"
    by (simp add: white_page_def)
  have px: "getpixel (h' ! img') 2 3 =
      alpha_composite_pixel (alpha_composite_pixel (255, 255, 255, 255) (0, 255, 0, 64))
        (255, 255, 0, 64)"
    using overlays_composited_in_category_order [OF _ size r, of 2 3] by (simp add: cov base)
  moreover have "alpha_composite_pixel
      (alpha_composite_pixel (255, 255, 255, 255) (0, 255, 0, 64)) (255, 255, 0, 64)
      = (207, 255, 143, 255)"
    by (simp add: alpha_composite_pixel_def blend_channel_def SHIFTFORDIV255_def
        PRECISION_BITS_def)
  ultimately show ?thesis using r by simp
qed






text \<open>
  Claim C4, as stated, fails: the program converts the page image to RGBA inside the
  drawing loops only, so with no region to draw the output is the input image in its own
  mode. Rendering an RGB page without regions gives an RGB image, which has no alpha
  channel.
\<close>

theorem no_regions_output_not_alpha_capable:
  "render_page [] 1 0 [white_page] = Inr (0, [white_page]) \<and> image_mode ([white_page] ! 0) = RGB"
  by (simp add: render_page_painting page_painting_def painting_order_def on_page_def
      white_page_def)

text \<open>
  Claim C4, amended. Rendering a page with no region to draw returns the input image
  itself, so it is pixel-identical to the input and keeps the input's width, height and
  pixel format (it is not converted). Whenever rendering returns, the output has the
  width and height of the input, and it is in RGBA format if at least one region was
  drawn.
\<close>

theorem no_regions_returns_input_image:
  assumes "img < length h"
  shows "(page_painting all_blocks page_num = [] \<longrightarrow>
            render_page all_blocks page_num img h = Inr (img, h))
       \<and> (\<forall>img' h'. render_page all_blocks page_num img h = Inr (img', h') \<longrightarrow>
            image_size (h' ! img') = image_size (h ! img)
            \<and> (page_painting all_blocks page_num \<noteq> [] \<longrightarrow> image_mode (h' ! img') = RGBA))"
proof -
  obtain W H where size: "image_size (h ! img) = (W, H)"
    by (cases "image_size (h ! img)")
  have "render_page all_blocks page_num img h = Inr (img, h)"
    if "page_painting all_blocks page_num = []"
    using that by (simp add: render_page_painting)
  moreover have "image_size (h' ! img') = image_size (h ! img)
      \<and> (page_painting all_blocks page_num \<noteq> [] \<longrightarrow> image_mode (h' ! img') = RGBA)"
    if "render_page all_blocks page_num img h = Inr (img', h')" for img' h'
    using render_page_Inr [OF assms size that] by (auto simp: image_mode_tint_all)
  ultimately show ?thesis by blast
qed

text \<open>
  A page with one line block, which is not drawn, and a page with one table block.
\<close>

theorem no_regions_returns_input_image_witness:
  "render_page [box_block ''LINE'' 0 0 1 1] 1 0 [white_page] = Inr (0, [white_page])
   \<and> (\<exists>img' h'. render_page [box_block ''LAYOUT_TABLE'' 0 0 1 1] 1 0 [white_page] = Inr (img', h')
         \<and> image_size (h' ! img') = (10, 20) \<and> image_mode (h' ! img') = RGBA)"
proof -
  obtain img' h' where
    r: "render_page [box_block ''LAYOUT_TABLE'' 0 0 1 1] 1 0 [white_page] = Inr (img', h')"
    using example_table_rendered by blast
  have "image_size (h' ! img') = (10, 20) \<and> image_mode (h' ! img') = RGBA"
    using no_regions_returns_input_image
      [of 0 "[white_page]" "[box_block ''LAYOUT_TABLE'' 0 0 1 1]" 1] r example_table_painted
    by (simp add: white_page_def)
  moreover have "render_page [box_block ''LINE'' 0 0 1 1] 1 0 [white_page] = Inr (0, [white_page])"
    using no_regions_returns_input_image [of 0 "[white_page]" "[box_block ''LINE'' 0 0 1 1]" 1]
      example_line_not_painted
    by simp
  ultimately show ?thesis using r by blast
qed



text \<open>
  Claim C6. A block whose \<open>BlockType\<close> is none of the seven types that the drawing loops
  select (\<open>LAYOUT_FIGURE\<close>, \<open>LAYOUT_TABLE\<close>, \<open>LAYOUT_TEXT\<close>, \<open>LAYOUT_SECTION_HEADER\<close>,
  \<open>LAYOUT_HEADER\<close>, \<open>LAYOUT_TITLE\<close>, \<open>LAYOUT_FOOTER\<close>) has no effect on the rendering:
  with the block or without it, the renderer returns the same image, or raises the same
  exception, whatever the bounding box of the block is.
\<close>

theorem undrawn_category_is_ignored:
  assumes "BlockType blk \<notin> set drawn_types"
  shows "render_page (bs1 @ blk # bs2) page_num img h = render_page (bs1 @ bs2) page_num img h"
  using assms by (simp add: render_page_painting page_painting_ignored)

text \<open>A list block, with a bounding box of negative size, on the page that is rendered.\<close>

theorem undrawn_category_is_ignored_witness:
  "render_page [box_block ''LAYOUT_LIST'' 0 0 (- 1) (- 1)] 1 0 [white_page]
     = render_page [] 1 0 [white_page]"
  using undrawn_category_is_ignored
    [of "box_block ''LAYOUT_LIST'' 0 0 (- 1) (- 1)" "[]" "[]" 1 0 "[white_page]"]
  by (simp add: box_block_def drawn_types_def header_types_def)

text \<open>
  Claim C7, as stated, fails in one part: the renderer does not produce a new buffer on
  every invocation. With no region to draw (here a page with a line and a word block
  only) it returns the very object it was given, and allocates nothing.
\<close>

theorem output_is_input_object_without_regions:
  "render_page [box_block ''LINE'' 0 0 1 1, box_block ''WORD'' 0 0 1 1] 1 0 [white_page]
     = Inr (0, [white_page])"
  by (simp add: render_page_painting page_painting_def painting_order_def on_page_def
      box_block_def header_types_def)

text \<open>
  Claim C7, amended. The renderer never mutates the input image, nor any other image
  that existed before: after rendering, every object of the store is as it was, and the
  objects allocated since come after them. When at least one region is drawn, the
  output is one of the new objects, so it is not the input buffer; when no region is
  drawn, the output is the input object itself and the store is unchanged.
\<close>

theorem input_image_never_mutated:
  assumes "img < length h"
    and "render_page all_blocks page_num img h = Inr (img', h')"
  shows "take (length h) h' = h \<and> h' ! img = h ! img \<and> img' < length h'
       \<and> (page_painting all_blocks page_num \<noteq> [] \<longrightarrow> length h \<le> img')
       \<and> (page_painting all_blocks page_num = [] \<longrightarrow> img' = img \<and> h' = h)"
proof -
  obtain W H where size: "image_size (h ! img) = (W, H)"
    by (cases "image_size (h ! img)")
  from render_page_Inr [OF assms(1) size assms(2)] assms(1)
  show ?thesis by (auto simp: nth_append)
qed

text \<open>
  A page with a table block, whose output is a new object, and a page with a line block
  only, whose output is the input object.
\<close>

theorem input_image_never_mutated_witness:
  "(\<exists>img' h'. render_page [box_block ''LAYOUT_TABLE'' 0 0 1 1] 1 0 [white_page] = Inr (img', h')
      \<and> take 1 h' = [white_page] \<and> h' ! 0 = white_page \<and> img' < length h' \<and> 1 \<le> img')
   \<and> (\<exists>img' h'. render_page [box_block ''LINE'' 0 0 1 1] 1 0 [white_page] = Inr (img', h')
      \<and> take 1 h' = [white_page] \<and> img' = 0 \<and> h' = [white_page])"
proof -
  obtain img' h' where
    r: "render_page [box_block ''LAYOUT_TABLE'' 0 0 1 1] 1 0 [white_page] = Inr (img', h')"
    using example_table_rendered by blast
  have "take 1 h' = [white_page] \<and> h' ! 0 = white_page \<and> img' < length h' \<and> 1 \<le> img'"
    using input_image_never_mutated
      [of 0 "[white_page]" "[box_block ''LAYOUT_TABLE'' 0 0 1 1]" 1 img' h']
      r example_table_painted
    by simp
  then have table: "\<exists>img' h'.
      render_page [box_block ''LAYOUT_TABLE'' 0 0 1 1] 1 0 [white_page] = Inr (img', h')
      \<and> take 1 h' = [white_page] \<and> h' ! 0 = white_page \<and> img' < length h' \<and> 1 \<le> img'"
    using r by blast
  obtain img'' h'' where
    r': "render_page [box_block ''LINE'' 0 0 1 1] 1 0 [white_page] = Inr (img'', h'')"
    using example_line_not_painted by (simp add: render_page_painting)
  have "take 1 h'' = [white_page] \<and> img'' = 0 \<and> h'' = [white_page]"
    using input_image_never_mutated
      [of 0 "[white_page]" "[box_block ''LINE'' 0 0 1 1]" 1 img'' h'']
      r' example_line_not_painted
    by simp
  then have "\<exists>img' h'. render_page [box_block ''LINE'' 0 0 1 1] 1 0 [white_page] = Inr (img', h')
      \<and> take 1 h' = [white_page] \<and> img' = 0 \<and> h' = [white_page]"
    using r' by blast
  with table show ?thesis by blast
qed

text \<open>
  Claim C8. A block of type \<open>LAYOUT_SECTION_HEADER\<close>, \<open>LAYOUT_HEADER\<close> or \<open>LAYOUT_TITLE\<close>
  is put into the header group of its page, the group that the fourth drawing loop
  draws, at its place among the other header blocks. It does not change the statistics:
  these count the blocks of type \<open>LINE\<close>, \<open>WORD\<close>, \<open>LAYOUT_FIGURE\<close> and \<open>LAYOUT_TABLE\<close> of
  the whole document, next to the number of pages, and nothing else.
\<close>

theorem header_blocks_drawn_but_not_counted:
  assumes "BlockType blk \<in> set [''LAYOUT_SECTION_HEADER'', ''LAYOUT_HEADER'', ''LAYOUT_TITLE'']"
  shows "page_header_blocks (group_page_blocks (bs1 @ blk # bs2) (Page blk)) =
           page_header_blocks (group_page_blocks bs1 (Page blk)) @
           blk # page_header_blocks (group_page_blocks bs2 (Page blk))
       \<and> statistics n (bs1 @ blk # bs2) = statistics n (bs1 @ bs2)
       \<and> statistics n all_blocks =
           \<lparr>Page_Count = n,
            Line_Count = length (filter (\<lambda>b. BlockType b = ''LINE'') all_blocks),
            Word_Count = length (filter (\<lambda>b. BlockType b = ''WORD'') all_blocks),
            Figure_Count = length (filter (\<lambda>b. BlockType b = ''LAYOUT_FIGURE'') all_blocks),
            Table_Count = length (filter (\<lambda>b. BlockType b = ''LAYOUT_TABLE'') all_blocks)\<rparr>"
proof -
  have "page_header_blocks (group_page_blocks (bs1 @ blk # bs2) (Page blk)) =
           page_header_blocks (group_page_blocks bs1 (Page blk)) @
           blk # page_header_blocks (group_page_blocks bs2 (Page blk))"
    using assms by (simp add: group_page_blocks_eq on_page_def header_types_def)
  moreover have "statistics n (bs1 @ blk # bs2) = statistics n (bs1 @ bs2)"
    using assms by (auto simp: statistics_eq)
  ultimately show ?thesis
    by (simp add: statistics_eq)
qed

text \<open>A document whose only block is a section header on page 1.\<close>

theorem header_blocks_drawn_but_not_counted_witness:
  "page_header_blocks (group_page_blocks [box_block ''LAYOUT_SECTION_HEADER'' 0 0 1 (1/10)] 1)
     = [box_block ''LAYOUT_SECTION_HEADER'' 0 0 1 (1/10)]
   \<and> statistics 1 [box_block ''LAYOUT_SECTION_HEADER'' 0 0 1 (1/10)] = statistics 1 []
   \<and> statistics 1 [] = \<lparr>Page_Count = 1, Line_Count = 0, Word_Count = 0, Figure_Count = 0, Table_Count = 0\<rparr>"
  using header_blocks_drawn_but_not_counted
    [of "box_block ''LAYOUT_SECTION_HEADER'' 0 0 1 (1/10)" "[]" "[]" 1 "[]"]
  by (simp add: box_block_def group_page_blocks_def empty_groups_def)

text \<open>
  Claim C9. Whatever the network, the parser and PyMuPDF return or raise, and whatever
  the blocks are, handling a selected file returns normally: no exception leaves the
  \<open>try\<close> statement. What was shown before stays, and among what is shown since there is
  an error message exactly when the file was not processed without error. The traceback
  is shown with it, except when the fetch gave nothing to parse (a \<open>RequestException\<close>,
  which \<open>get_github_file_content\<close> reports itself, or an empty content).
\<close>

theorem errors_are_caught_and_shown:
  "\<exists>new. view_selected_file env selected_folder selected_file output_path shown = Inr (shown @ new)
     \<and> (list_ex is_error new \<longleftrightarrow> \<not> file_ok env selected_folder selected_file output_path)
     \<and> (St_traceback \<in> set new \<longleftrightarrow>
          \<not> file_ok env selected_folder selected_file output_path \<and> \<not> nothing_fetched env output_path)"
proof -
  let ?url = "''https://raw.githubusercontent.com/'' @ repo @ ''/outputs/'' @ replace_backslash output_path"
  let ?pdf = "selected_folder @ ''/'' @ selected_file @ ''.pdf''"
  let ?s1 = "shown @ [St_write (''Processing file: '' @ replace_backslash output_path)]"
  show ?thesis
  proof (cases "requests_get env ?url")
    case (Inl e)
    show ?thesis
    proof (cases e)
      case (RequestException m)
      then show ?thesis
        using Inl
        by (simp add: view_selected_file_def process_file_def get_github_file_content_def
            and_then_def file_ok_def nothing_fetched_def Let_def)
    qed (use Inl in \<open>simp_all add: view_selected_file_def process_file_def
            get_github_file_content_def and_then_def file_ok_def nothing_fetched_def Let_def\<close>)
  next
    case (Inr raw)
    show ?thesis
    proof (cases "raw = []")
      case True
      then show ?thesis
        using Inr
        by (simp add: view_selected_file_def process_file_def get_github_file_content_def
            and_then_def file_ok_def nothing_fetched_def Let_def)
    next
      case False
      show ?thesis
      proof (cases "json_loads env raw")
        case (Inl e)
        show ?thesis
          using Inr False Inl
          by (cases e) (simp_all add: view_selected_file_def process_file_def
              get_github_file_content_def and_then_def file_ok_def nothing_fetched_def Let_def)
      next
        case content: (Inr content)
        have ok: "file_ok env selected_folder selected_file output_path = document_ok env ?pdf content"
          using Inr False content by (simp add: file_ok_def)
        have nf: "\<not> nothing_fetched env output_path"
          using Inr False by (simp add: nothing_fetched_def)
        have eq: "process_file env selected_file ?pdf output_path shown
            = show_document env selected_file ?pdf content ?s1"
          using Inr False content
          by (simp add: process_file_def get_github_file_content_def and_then_def Let_def)
        show ?thesis
        proof (cases "document_ok env ?pdf content")
          case True
          then obtain new where "show_document env selected_file ?pdf content ?s1 = Inr (?s1 @ new)"
            and q: "quiet new"
            using show_document_quiet [of env ?pdf content selected_file ?s1] by blast
          then have "view_selected_file env selected_folder selected_file output_path shown
              = Inr (shown @ (St_write (''Processing file: '' @ replace_backslash output_path) # new))"
            using eq by (simp add: view_selected_file_def Let_def)
          then show ?thesis
            using quiet_no_error [OF q] ok nf True by auto
        next
          case False
          then obtain e new where
            "show_document env selected_file ?pdf content ?s1 = Inl (e, ?s1 @ new)"
            and q: "quiet new"
            using show_document_quiet [of env ?pdf content selected_file ?s1] by blast
          then have "view_selected_file env selected_folder selected_file output_path shown
              = Inr (shown @ (St_write (''Processing file: '' @ replace_backslash output_path) # new
                       @ [St_error (''Error loading processed file: '' @ str_exn e), St_traceback]))"
            using eq by (simp add: view_selected_file_def Let_def)
          then show ?thesis
            using ok nf False by auto
        qed
      qed
    qed
  qed
qed

text \<open>
  The fetch and the parser work, the PDF does not open: the exception of \<open>fitz.open\<close>
  reaches the handler, which shows its message and the traceback.
\<close>

theorem errors_are_caught_and_shown_witness:
  "view_selected_file broken_pdf_env ''folder'' ''file'' ''out/file.json'' []
     = Inr [St_write ''Processing file: out/file.json'',
            St_error ''Error loading processed file: no such file'', St_traceback]
   \<and> \<not> file_ok broken_pdf_env ''folder'' ''file'' ''out/file.json''
   \<and> \<not> nothing_fetched broken_pdf_env ''out/file.json''"
proof -
  have "view_selected_file broken_pdf_env ''folder'' ''file'' ''out/file.json'' []
     = Inr [St_write ''Processing file: out/file.json'',
            St_error ''Error loading processed file: no such file'', St_traceback]"
    by (simp add: view_selected_file_def process_file_def get_github_file_content_def
        show_document_def and_then_def broken_pdf_env_def replace_backslash_def Let_def)
  then show ?thesis
    using errors_are_caught_and_shown [of broken_pdf_env "''folder''" "''file''" "''out/file.json''" "[]"]
    by auto
qed

text \<open>
  Claim C10. The five drawing loops with their literal fill colours do what one loop
  driven by \<open>BLOCK_COLORS\<close> does: the groups Figure, Table, Text, Header/Title and Footer
  are drawn, in this order, each in the colour of the entry of \<open>BLOCK_COLORS\<close> at the same
  position, whose keys are these five categories. The entries are red, blue, green,
  purple and yellow, each with alpha 64, and the legend shows each key on the colour of
  its entry: the legend and the overlays agree.
\<close>

theorem overlay_tints_are_the_legend_colours:
  "draw_overlays figures tables texts headers
       footers img h
     = draw_by_table BLOCK_COLORS
         [figures, tables, texts, headers,
          footers]
         (fst (image_size (h ! img))) (snd (image_size (h ! img))) (img, h)
   \<and> map fst BLOCK_COLORS =
       [''LAYOUT_FIGURE'', ''LAYOUT_TABLE'', ''LAYOUT_TEXT'', ''LAYOUT_HEADER/TITLE'', ''LAYOUT_FOOTER'']
   \<and> map snd BLOCK_COLORS =
       [(255, 0, 0, 64), (0, 0, 255, 64), (0, 255, 0, 64), (128, 0, 128, 64), (255, 255, 0, 64)]
   \<and> map (\<lambda>entry. snd (snd (snd (snd entry)))) BLOCK_COLORS = [64, 64, 64, 64, 64]
   \<and> display_legends_with_columns [] =
       [St_markdown ''### Block Type Legend'', St_markdown ''<style>.legend-box</style>'',
        St_legend_box ''#ff0000'' ''LAYOUT_FIGURE'', St_legend_box ''#0000ff'' ''LAYOUT_TABLE'',
        St_legend_box ''#00ff00'' ''LAYOUT_TEXT'', St_legend_box ''#800080'' ''LAYOUT_HEADER/TITLE'',
        St_legend_box ''#ffff00'' ''LAYOUT_FOOTER'']"
proof -
  have "draw_overlays figures tables texts headers
       footers img h
     = draw_by_table BLOCK_COLORS
         [figures, tables, texts, headers,
          footers]
         (fst (image_size (h ! img))) (snd (image_size (h ! img))) (img, h)"
    by (simp add: draw_overlays_def draw_by_table_def BLOCK_COLORS_def for_each_Cons_fun
        for_each_Nil_fun split: prod.splits)
  moreover have "display_legends_with_columns [] =
       [St_markdown ''### Block Type Legend'', St_markdown ''<style>.legend-box</style>'',
        St_legend_box ''#ff0000'' ''LAYOUT_FIGURE'', St_legend_box ''#0000ff'' ''LAYOUT_TABLE'',
        St_legend_box ''#00ff00'' ''LAYOUT_TEXT'', St_legend_box ''#800080'' ''LAYOUT_HEADER/TITLE'',
        St_legend_box ''#ffff00'' ''LAYOUT_FOOTER'']"
    by (simp add: display_legends_with_columns_def BLOCK_COLORS_def rgba_to_hex_def hex02_def)
  ultimately show ?thesis
    by (simp add: BLOCK_COLORS_def)
qed

end
